theory Spec2Isabelle
  imports Main "HOL-Library.Sublist"
begin

section \<open>Text and regular expressions\<close>

text \<open>
  The module \<^verbatim>\<open>scrape.py\<close> works on Python \<^verbatim>\<open>str\<close> values. Text is modelled as
  \<^typ>\<open>string\<close>, one \<^typ>\<open>char\<close> per code point, so the model covers texts whose code
  points are below 256. On that range the character classes of Python's \<^verbatim>\<open>re\<close> for
  \<^verbatim>\<open>str\<close> patterns are: \<^verbatim>\<open>\d\<close> the ten ASCII digits, \<^verbatim>\<open>\s\<close> the code points
  9-13, 28-32, 133 and 160.
\<close>

definition is_digit :: "char \<Rightarrow> bool" where
  "is_digit c = (c \<in> set ''0123456789'')"

definition is_space :: "char \<Rightarrow> bool" where
  "is_space c = ((of_char c :: nat) \<in> set [9, 10, 11, 12, 13, 28, 29, 30, 31, 32, 133, 160])"

definition is_lower :: "char \<Rightarrow> bool" where
  "is_lower c = (c \<in> set ''abcdefghijklmnopqrstuvwxyz'')"

definition is_upper :: "char \<Rightarrow> bool" where
  "is_upper c = (c \<in> set ''ABCDEFGHIJKLMNOPQRSTUVWXYZ'')"

definition is_ref_char :: "char \<Rightarrow> bool" where
  \<comment> \<open>the class \<^verbatim>\<open>[@A-Za-z0-9_]\<close>\<close>
  "is_ref_char c = (c = CHR ''@'' \<or> is_upper c \<or> is_lower c \<or> is_digit c \<or> c = CHR ''_'')"

definition is_date_char :: "char \<Rightarrow> bool" where
  \<comment> \<open>the class \<^verbatim>\<open>[^\s,\]\}"]\<close>\<close>
  "is_date_char c = (\<not> is_space c \<and> c \<noteq> CHR '','' \<and> c \<noteq> CHR '']'' \<and> c \<noteq> CHR ''}'' \<and> c \<noteq> CHR 0x22)"

definition starts_with :: "string \<Rightarrow> string \<Rightarrow> bool" where
  "starts_with p s = (take (length p) s = p)"

text \<open>
  \<^verbatim>\<open>re.sub(pattern, repl, s)\<close> for a pattern that cannot match the empty string and has
  no anchor: the text is scanned from the left; where the pattern matches, the match is
  replaced and the scan goes on behind it; elsewhere the character is kept. The pattern is
  given as a function that, on the text from the current position, returns the replacement
  and the length of the match.
\<close>

fun re_sub :: "(string \<Rightarrow> (string \<times> nat) option) \<Rightarrow> string \<Rightarrow> string" where
  "re_sub m [] = []"
| "re_sub m (c # cs) =
     (case m (c # cs) of
        Some (r, n) \<Rightarrow> r @ re_sub m (drop (n - 1) cs)
      | None \<Rightarrow> c # re_sub m cs)"

text \<open>
  The six patterns of \<^verbatim>\<open>normalize_rsc_tokens\<close>. In each of them a greedy repetition of
  a character class is followed by nothing, or by a character outside the class, so the
  repetition takes the longest run and backtracking finds no other match.
\<close>

definition quoted_token :: "string \<Rightarrow> (char \<Rightarrow> bool) \<Rightarrow> (string \<Rightarrow> string) \<Rightarrow> string \<Rightarrow> (string \<times> nat) option" where
  \<comment> \<open>\<^verbatim>\<open>"<tag>(<class>+)"\<close>, the tag being \<^verbatim>\<open>\$n\<close>, \<^verbatim>\<open>\$D\<close> or \<^verbatim>\<open>\$\<close>\<close>
  "quoted_token tag cls repl s =
     (if starts_with (CHR 0x22 # tag) s then
        (let body = takeWhile cls (drop (Suc (length tag)) s)
         in if body \<noteq> [] \<and> starts_with [CHR 0x22] (drop (Suc (length tag) + length body) s)
            then Some (repl body, length tag + length body + 2)
            else None)
      else None)"

definition bare_token :: "string \<Rightarrow> (char \<Rightarrow> bool) \<Rightarrow> (string \<Rightarrow> string) \<Rightarrow> string \<Rightarrow> (string \<times> nat) option" where
  \<comment> \<open>\<^verbatim>\<open><tag>(<class>+)\<close>\<close>
  "bare_token tag cls repl s =
     (if starts_with tag s then
        (let body = takeWhile cls (drop (length tag) s)
         in if body \<noteq> [] then Some (repl body, length tag + length body) else None)
      else None)"

definition quote :: "string \<Rightarrow> string" where
  "quote body = CHR 0x22 # body @ [CHR 0x22]"

definition normalize_rsc_tokens :: "string \<Rightarrow> string" where
  "normalize_rsc_tokens s0 =
     (let s1 = re_sub (quoted_token ''$n'' is_digit (\<lambda>b. b)) s0;
          s2 = re_sub (bare_token ''$n'' is_digit (\<lambda>b. b)) s1;
          s3 = re_sub (quoted_token ''$D'' (\<lambda>c. c \<noteq> CHR 0x22) quote) s2;
          s4 = re_sub (bare_token ''$D'' is_date_char quote) s3;
          s5 = re_sub (quoted_token ''$'' is_ref_char (\<lambda>b. ''null'')) s4;
          s6 = re_sub (bare_token ''$'' is_ref_char (\<lambda>b. ''null'')) s5
      in s6)"

text \<open>
  \<^verbatim>\<open>strip_chunk_prefixes\<close>: \<^verbatim>\<open>re.sub(r'^\s*\d+\s*:\s*', '', rsc_body, flags=re.M)\<close>.
  With \<^verbatim>\<open>re.M\<close> the anchor \<^verbatim>\<open>^\<close> holds at the start of the text and behind every line
  feed. \<^verbatim>\<open>chunk_prefix\<close> gives the length of the match at the current position; the
  flag of \<^verbatim>\<open>strip_from\<close> says whether \<^verbatim>\<open>^\<close> holds there. \<^verbatim>\<open>\s*\<close> takes line feeds too,
  so a match may end behind a line feed, where \<^verbatim>\<open>^\<close> holds again.
\<close>

definition chunk_prefix :: "string \<Rightarrow> nat option" where
  "chunk_prefix s =
     (let r1 = dropWhile is_space s;
          r2 = dropWhile is_digit r1;
          r3 = dropWhile is_space r2
      in if length r2 < length r1 \<and> starts_with '':'' r3
         then Some (length s - length (dropWhile is_space (tl r3)))
         else None)"

fun strip_from :: "bool \<Rightarrow> string \<Rightarrow> string" where
  "strip_from bol [] = []"
| "strip_from bol (c # cs) =
     (case (if bol then chunk_prefix (c # cs) else None) of
        Some n \<Rightarrow> strip_from ((c # cs) ! (n - 1) = CHR 0x0A) (drop (n - 1) cs)
      | None \<Rightarrow> c # strip_from (c = CHR 0x0A) cs)"

definition strip_chunk_prefixes :: "string \<Rightarrow> string" where
  "strip_chunk_prefixes rsc_body = strip_from True rsc_body"

section \<open>JSON values and \<^verbatim>\<open>json.loads\<close>\<close>

text \<open>
  The values \<^verbatim>\<open>json.loads\<close> returns. A Python \<^verbatim>\<open>str\<close> inside a value is a list of code
  points (an escape \<^verbatim>\<open>\uXXXX\<close> may denote any of them). A number written without fraction
  and exponent is a Python \<^verbatim>\<open>int\<close>; any other number is a \<^verbatim>\<open>float\<close>. A \<^verbatim>\<open>dict\<close> is an
  association list with distinct keys, in insertion order. Python's \<^verbatim>\<open>None\<close> is \<open>JNull\<close>.
  The interpreter's limit on the depth of nesting is not modelled.

  A \<^verbatim>\<open>float\<close> is an IEEE 754 double: \<open>Finite neg m e\<close> is the double of value
  \<open>m * 2 ^ e\<close>, negative where \<open>neg\<close> holds, with \<open>m \<le> 2 ^ 53\<close> and \<open>- 1074 \<le> e\<close>.
\<close>

type_synonym pystr = "nat list"

datatype pyfloat = Finite bool int int | Infinity bool | NaN

datatype json =
    JNull
  | JBool bool
  | JInt int
  | JFloat pyfloat
  | JStr pystr
  | JArr "json list"
  | JObj "(pystr \<times> json) list"

text \<open>
  \<^verbatim>\<open>float(text)\<close> on a decimal \<open>m * 10 ^ e10\<close>: the nearest double, ties to the even
  mantissa, infinity from \<open>2 ^ 1024\<close> on, zero or a subnormal double below \<open>2 ^ - 1022\<close>.
  \<open>round_double neg p q\<close> rounds the fraction \<open>p / q\<close> of two positive numbers.
\<close>

function bit_length :: "int \<Rightarrow> nat" where
  "bit_length n = (if n \<le> 0 then 0 else Suc (bit_length (n div 2)))"
  by pat_completeness auto

termination
  by (relation "measure nat") auto

declare bit_length.simps [simp del]

definition binary_exponent :: "int \<Rightarrow> int \<Rightarrow> int" where
  \<comment> \<open>the \<open>k\<close> with \<open>2 ^ k \<le> p / q < 2 ^ (k + 1)\<close>\<close>
  "binary_exponent p q =
     (let k = int (bit_length p) - int (bit_length q)
      in if q * 2 ^ nat k \<le> p * 2 ^ nat (- k) then k else k - 1)"

definition round_half_even :: "int \<Rightarrow> int \<Rightarrow> int" where
  "round_half_even n d =
     (let q = n div d; r = n mod d
      in if 2 * r < d then q
         else if d < 2 * r then q + 1
         else if even q then q else q + 1)"

definition round_double :: "bool \<Rightarrow> int \<Rightarrow> int \<Rightarrow> pyfloat" where
  "round_double neg p q =
     (let k = binary_exponent p q;
          e = max (k - 52) (- 1074);
          m = round_half_even (p * 2 ^ nat (- e)) (q * 2 ^ nat e)
      in if 1023 < k \<or> (e = 971 \<and> m = 2 ^ 53) then Infinity neg else Finite neg m e)"

definition float_of_decimal :: "bool \<Rightarrow> int \<Rightarrow> int \<Rightarrow> pyfloat" where
  "float_of_decimal neg m e10 =
     (if m = 0 then Finite neg 0 0
      else if 0 \<le> e10 then round_double neg (m * 10 ^ nat e10) 1
      else round_double neg m (10 ^ nat (- e10)))"

definition str :: "string \<Rightarrow> pystr" where
  "str s = map of_char s"

datatype token = TLBrack | TRBrack | TLBrace | TRBrace | TComma | TColon | TVal json

definition digit_val :: "char \<Rightarrow> int" where
  "digit_val c = of_char c - 48"

definition int_of_digits :: "string \<Rightarrow> int" where
  "int_of_digits ds = foldl (\<lambda>a c. 10 * a + digit_val c) 0 ds"

definition hex_val :: "char \<Rightarrow> nat option" where
  "hex_val c =
     (if is_digit c then Some (of_char c - 48)
      else if c \<in> set ''abcdef'' then Some (of_char c - 87)
      else if c \<in> set ''ABCDEF'' then Some (of_char c - 55)
      else None)"

definition hex4 :: "string \<Rightarrow> nat option" where
  "hex4 s =
     (case map hex_val (take 4 s) of
        [Some a, Some b, Some c, Some d] \<Rightarrow> Some (((a * 16 + b) * 16 + c) * 16 + d)
      | _ \<Rightarrow> None)"

definition simple_escape :: "char \<Rightarrow> nat option" where
  "simple_escape e =
     (if e = CHR 0x22 then Some 0x22
      else if e = CHR 0x5C then Some 0x5C
      else if e = CHR ''/'' then Some 0x2F
      else if e = CHR ''b'' then Some 8
      else if e = CHR ''f'' then Some 12
      else if e = CHR ''n'' then Some 10
      else if e = CHR ''r'' then Some 13
      else if e = CHR ''t'' then Some 9
      else None)"

definition low_surrogate :: "string \<Rightarrow> nat option" where
  \<comment> \<open>the text goes on with \<^verbatim>\<open>\uXXXX\<close>, a low surrogate\<close>
  "low_surrogate r =
     (if starts_with [CHR 0x5C, CHR ''u''] r then
        (case hex4 (drop 2 r) of
           Some lo \<Rightarrow> if 0xDC00 \<le> lo \<and> lo \<le> 0xDFFF then Some lo else None
         | None \<Rightarrow> None)
      else None)"

definition push_char :: "nat \<Rightarrow> nat \<Rightarrow> (pystr \<times> nat) option \<Rightarrow> (pystr \<times> nat) option" where
  "push_char cp k r = (case r of None \<Rightarrow> None | Some (cps, n) \<Rightarrow> Some (cp # cps, n + k))"

text \<open>
  The body of a string literal, from behind the opening quote: the decoded string and the
  number of characters read, the closing quote included (\<^verbatim>\<open>strict=True\<close>: a control
  character ends the parse with an error).
\<close>

fun lex_string :: "string \<Rightarrow> (pystr \<times> nat) option" where
  "lex_string [] = None"
| "lex_string (c # cs) =
     (if c = CHR 0x22 then Some ([], 1)
      else if c = CHR 0x5C then
        (case cs of
           [] \<Rightarrow> None
         | e # r \<Rightarrow>
             if e = CHR ''u'' then
               (case hex4 r of
                  None \<Rightarrow> None
                | Some hi \<Rightarrow>
                    (case (if 0xD800 \<le> hi \<and> hi \<le> 0xDBFF then low_surrogate (drop 4 r) else None) of
                       Some lo \<Rightarrow>
                         push_char (0x10000 + (hi - 0xD800) * 0x400 + (lo - 0xDC00)) 12
                           (lex_string (drop 10 r))
                     | None \<Rightarrow> push_char hi 6 (lex_string (drop 4 r))))
             else
               (case simple_escape e of
                  None \<Rightarrow> None
                | Some cp \<Rightarrow> push_char cp 2 (lex_string r)))
      else if (of_char c :: nat) < 0x20 then None
      else push_char (of_char c) 1 (lex_string cs))"

text \<open>
  A number, \<^verbatim>\<open>-?(0|[1-9]\d*)(\.\d+)?([eE][-+]?\d+)?\<close>: the value and the length of the
  match. \<^verbatim>\<open>int(text)\<close> raises on more than 4300 digits (the default limit of the
  interpreter), and \<^verbatim>\<open>json.loads\<close> with it.
\<close>

definition lex_number :: "string \<Rightarrow> (json \<times> nat) option" where
  "lex_number s =
     (let neg = starts_with ''-'' s;
          s1 = (if neg then drop 1 s else s);
          ip = (if starts_with ''0'' s1 then ''0'' else takeWhile is_digit s1);
          s2 = drop (length ip) s1;
          fr = (if starts_with ''.'' s2 then takeWhile is_digit (drop 1 s2) else []);
          s3 = (if fr = [] then s2 else drop (Suc (length fr)) s2);
          sg = (if starts_with ''e'' s3 \<or> starts_with ''E'' s3
                then (if starts_with ''+'' (drop 1 s3) \<or> starts_with ''-'' (drop 1 s3) then 2 else 1)
                else 0);
          ex = (if sg = 0 then [] else takeWhile is_digit (drop sg s3));
          s4 = (if ex = [] then s3 else drop (sg + length ex) s3)
      in if ip = [] then None
         else if fr = [] \<and> ex = [] then
           (if 4300 < length ip then None
            else Some (JInt ((if neg then - 1 else 1) * int_of_digits ip), length s - length s4))
         else
           Some (JFloat (float_of_decimal neg (int_of_digits (ip @ fr))
                   ((if starts_with ''-'' (drop 1 s3) then - 1 else 1) * int_of_digits ex
                      - int (length fr))),
                 length s - length s4))"

definition is_json_ws :: "char \<Rightarrow> bool" where
  "is_json_ws c = (c = CHR '' '' \<or> c = CHR 0x09 \<or> c = CHR 0x0A \<or> c = CHR 0x0D)"

definition lex_literal :: "string \<Rightarrow> (json \<times> nat) option" where
  "lex_literal s =
     (if starts_with ''null'' s then Some (JNull, 4)
      else if starts_with ''true'' s then Some (JBool True, 4)
      else if starts_with ''false'' s then Some (JBool False, 5)
      else if starts_with ''NaN'' s then Some (JFloat NaN, 3)
      else if starts_with ''Infinity'' s then Some (JFloat (Infinity False), 8)
      else if starts_with ''-Infinity'' s then Some (JFloat (Infinity True), 9)
      else lex_number s)"

definition cons_tok :: "token \<Rightarrow> token list option \<Rightarrow> token list option" where
  "cons_tok t r = (case r of None \<Rightarrow> None | Some ts \<Rightarrow> Some (t # ts))"

fun lex :: "string \<Rightarrow> token list option" where
  "lex [] = Some []"
| "lex (c # cs) =
     (if is_json_ws c then lex cs
      else if c = CHR ''['' then cons_tok TLBrack (lex cs)
      else if c = CHR '']'' then cons_tok TRBrack (lex cs)
      else if c = CHR ''{'' then cons_tok TLBrace (lex cs)
      else if c = CHR ''}'' then cons_tok TRBrace (lex cs)
      else if c = CHR '','' then cons_tok TComma (lex cs)
      else if c = CHR '':'' then cons_tok TColon (lex cs)
      else if c = CHR 0x22 then
        (case lex_string cs of
           None \<Rightarrow> None
         | Some (v, n) \<Rightarrow> cons_tok (TVal (JStr v)) (lex (drop n cs)))
      else
        (case lex_literal (c # cs) of
           None \<Rightarrow> None
         | Some (v, n) \<Rightarrow> cons_tok (TVal v) (lex (drop (n - 1) cs))))"

text \<open>
  The grammar, as a machine over the tokens with a stack of the containers that are open.
  A key that comes twice keeps its first place and takes the last value, as in a Python
  \<^verbatim>\<open>dict\<close>.
\<close>

datatype frame = FArr "json list" | FObj "(pystr \<times> json) list" | FObjK "(pystr \<times> json) list" pystr

datatype pstate = PValue | PFirstElem | PFirstKey | PKey | PColon | PNext | PDone json

fun dict_set :: "(pystr \<times> json) list \<Rightarrow> pystr \<Rightarrow> json \<Rightarrow> (pystr \<times> json) list" where
  "dict_set [] k v = [(k, v)]"
| "dict_set ((k', v') # ms) k v = (if k' = k then (k, v) # ms else (k', v') # dict_set ms k v)"

fun complete :: "json \<Rightarrow> frame list \<Rightarrow> (pstate \<times> frame list) option" where
  "complete v [] = Some (PDone v, [])"
| "complete v (FArr xs # fs) = Some (PNext, FArr (xs @ [v]) # fs)"
| "complete v (FObjK ms k # fs) = Some (PNext, FObj (dict_set ms k v) # fs)"
| "complete v (FObj ms # fs) = None"

fun begin_value :: "frame list \<Rightarrow> token \<Rightarrow> (pstate \<times> frame list) option" where
  "begin_value fs (TVal v) = complete v fs"
| "begin_value fs TLBrack = Some (PFirstElem, FArr [] # fs)"
| "begin_value fs TLBrace = Some (PFirstKey, FObj [] # fs)"
| "begin_value fs _ = None"

fun begin_key :: "frame list \<Rightarrow> token \<Rightarrow> (pstate \<times> frame list) option" where
  "begin_key (FObj ms # fs) (TVal (JStr k)) = Some (PColon, FObjK ms k # fs)"
| "begin_key _ _ = None"

fun step :: "pstate \<Rightarrow> frame list \<Rightarrow> token \<Rightarrow> (pstate \<times> frame list) option" where
  "step PValue fs t = begin_value fs t"
| "step PFirstElem (FArr xs # fs) TRBrack = complete (JArr xs) fs"
| "step PFirstElem fs t = begin_value fs t"
| "step PFirstKey (FObj ms # fs) TRBrace = complete (JObj ms) fs"
| "step PFirstKey fs t = begin_key fs t"
| "step PKey fs t = begin_key fs t"
| "step PColon fs TColon = Some (PValue, fs)"
| "step PColon fs _ = None"
| "step PNext (FArr xs # fs) TComma = Some (PValue, FArr xs # fs)"
| "step PNext (FObj ms # fs) TComma = Some (PKey, FObj ms # fs)"
| "step PNext (FArr xs # fs) TRBrack = complete (JArr xs) fs"
| "step PNext (FObj ms # fs) TRBrace = complete (JObj ms) fs"
| "step PNext _ _ = None"
| "step (PDone v) fs t = None"

fun parse :: "pstate \<Rightarrow> frame list \<Rightarrow> token list \<Rightarrow> json option" where
  "parse st fs [] = (case st of PDone v \<Rightarrow> Some v | _ \<Rightarrow> None)"
| "parse st fs (t # ts) =
     (case step st fs t of None \<Rightarrow> None | Some (st', fs') \<Rightarrow> parse st' fs' ts)"

definition json_loads :: "string \<Rightarrow> json option" where
  \<comment> \<open>\<open>None\<close>: \<^verbatim>\<open>json.loads\<close> raises\<close>
  "json_loads s = (case lex s of None \<Rightarrow> None | Some ts \<Rightarrow> parse PValue [] ts)"

section \<open>The balanced-span scanners and the two decoders\<close>

text \<open>
  The inner loop of both decoders, entered behind an opening quote:
  \<^verbatim>\<open>while i < len(joined): if joined[i] == '\\': i += 2 elif joined[i] == '"': break else: i += 1\<close>.
  The result is the index the loop ends at: that of the closing quote, or one at or behind
  the end of the text.
\<close>

function skip_string :: "string \<Rightarrow> nat \<Rightarrow> nat" where
  "skip_string joined i =
     (if i < length joined then
        (if joined ! i = CHR 0x5C then skip_string joined (i + 2)
         else if joined ! i = CHR 0x22 then i
         else skip_string joined (i + 1))
      else i)"
  by pat_completeness auto
termination
  by (relation "measure (\<lambda>(joined, i). length joined - i)") auto

declare skip_string.simps [simp del]

lemma skip_string_ge: "i \<le> skip_string joined i"
proof (induction joined i rule: skip_string.induct)
  case (1 joined i)
  show ?case
  proof (cases "i < length joined")
    case False
    then show ?thesis by (subst skip_string.simps) simp
  next
    case True
    note lt = this
    show ?thesis
    proof (cases "joined ! i = CHR 0x5C")
      case True
      with lt 1(1) have "i + 2 \<le> skip_string joined (i + 2)" by blast
      with lt True show ?thesis by (subst skip_string.simps) simp
    next
      case False
      note nb = this
      show ?thesis
      proof (cases "joined ! i = CHR 0x22")
        case True
        with lt nb show ?thesis by (subst skip_string.simps) simp
      next
        case False
        with lt nb 1(2) have "i + 1 \<le> skip_string joined (i + 1)" by blast
        with lt nb False show ?thesis by (subst skip_string.simps) simp
      qed
    qed
  qed
qed

text \<open>
  The outer loop of both decoders; they differ in the pair of brackets only. \<open>depth\<close> is a
  Python \<^verbatim>\<open>int\<close> (it falls below zero where the span starts on no opening bracket). The
  result is the slice \<^verbatim>\<open>joined[start:i+1]\<close> at the closing bracket that takes the depth to
  zero; \<open>None\<close> where the loop runs to the end of the text.
\<close>

function scan_span :: "char \<Rightarrow> char \<Rightarrow> string \<Rightarrow> nat \<Rightarrow> int \<Rightarrow> nat \<Rightarrow> string option" where
  "scan_span opn cls joined start depth i =
     (if i < length joined then
        (if joined ! i = opn then scan_span opn cls joined start (depth + 1) (i + 1)
         else if joined ! i = cls then
           (if depth - 1 = 0 then Some (take (i + 1 - start) (drop start joined))
            else scan_span opn cls joined start (depth - 1) (i + 1))
         else if joined ! i = CHR 0x22 then
           scan_span opn cls joined start depth (skip_string joined (i + 1) + 1)
         else scan_span opn cls joined start depth (i + 1))
      else None)"
  by pat_completeness auto
termination
proof (relation "measure (\<lambda>(opn, cls, joined, start, depth, i). length joined - i)")
  fix joined :: string and i :: nat
  assume "i < length joined"
  moreover have "i + 1 \<le> skip_string joined (i + 1)" by (rule skip_string_ge)
  ultimately show "((opn, cls, joined, start, depth, skip_string joined (i + 1) + 1),
                    (opn, cls, joined, start, depth, i))
                   \<in> measure (\<lambda>(opn, cls, joined, start, depth, i). length joined - i)"
    for opn cls :: char and start :: nat and depth :: int
    by simp
qed auto

declare scan_span.simps [simp del]

text \<open>
  \<^verbatim>\<open>re.search(rf'"{re.escape(key)}"\s*:\s*\[', joined)\<close>: the leftmost match, as the pair
  of \<^verbatim>\<open>m.start()\<close> and \<^verbatim>\<open>m.end()\<close>.
\<close>

definition key_anchor :: "string \<Rightarrow> string \<Rightarrow> nat option" where
  \<comment> \<open>the length of the match at the current position\<close>
  "key_anchor key s =
     (if starts_with (quote key) s then
        (let r1 = dropWhile is_space (drop (length key + 2) s)
         in if starts_with '':'' r1 then
              (let r2 = dropWhile is_space (tl r1)
               in if starts_with ''['' r2 then Some (length s - length r2 + 1) else None)
            else None)
      else None)"

fun re_search :: "(string \<Rightarrow> nat option) \<Rightarrow> nat \<Rightarrow> string \<Rightarrow> (nat \<times> nat) option" where
  "re_search m i [] = None"
| "re_search m i (c # cs) =
     (case m (c # cs) of Some n \<Rightarrow> Some (i, i + n) | None \<Rightarrow> re_search m (Suc i) cs)"

text \<open>\<^verbatim>\<open>joined.find(sub)\<close> for a non-empty \<open>sub\<close>; \<open>None\<close> is Python's \<open>-1\<close>.\<close>

fun find_from :: "string \<Rightarrow> nat \<Rightarrow> string \<Rightarrow> nat option" where
  "find_from sub i [] = None"
| "find_from sub i (c # cs) =
     (if starts_with sub (c # cs) then Some i else find_from sub (Suc i) cs)"

text \<open>\<^verbatim>\<open>while start > 0 and joined[start] != '{': start -= 1\<close>\<close>

fun walk_left :: "string \<Rightarrow> nat \<Rightarrow> nat" where
  "walk_left joined 0 = 0"
| "walk_left joined (Suc n) =
     (if joined ! Suc n \<noteq> CHR ''{'' then walk_left joined n else Suc n)"

text \<open>
  The span each decoder hands to \<^verbatim>\<open>normalize_rsc_tokens\<close> and \<^verbatim>\<open>json.loads\<close>, on the
  text \<open>joined\<close> that \<^verbatim>\<open>strip_chunk_prefixes\<close> returned.
\<close>

definition array_span :: "string \<Rightarrow> string \<Rightarrow> string option" where
  "array_span joined key =
     (case re_search (key_anchor key) 0 joined of
        None \<Rightarrow> None
      | Some (m_start, m_end) \<Rightarrow>
          scan_span CHR ''['' CHR '']'' joined (m_end - 1) 0 (m_end - 1))"

definition id_anchor :: "string \<Rightarrow> string" where
  \<comment> \<open>\<^verbatim>\<open>f'"id":"{target_id}"'\<close>\<close>
  "id_anchor target_id = quote ''id'' @ '':'' @ quote target_id"

definition object_span :: "string \<Rightarrow> string \<Rightarrow> string option" where
  "object_span joined target_id =
     (case find_from (id_anchor target_id) 0 joined of
        None \<Rightarrow> None
      | Some pos \<Rightarrow>
          (let start = walk_left joined pos
           in scan_span CHR ''{'' CHR ''}'' joined start 0 start))"

definition extract_json_array_from_rsc :: "string \<Rightarrow> string \<Rightarrow> json" where
  "extract_json_array_from_rsc body_text key =
     (case array_span (strip_chunk_prefixes body_text) key of
        None \<Rightarrow> JArr []
      | Some arr_text \<Rightarrow>
          (case json_loads (normalize_rsc_tokens arr_text) of
             Some v \<Rightarrow> v
           | None \<Rightarrow> JArr []))"

definition extract_first_object_with_id :: "string \<Rightarrow> string \<Rightarrow> json" where
  \<comment> \<open>\<open>JNull\<close> is the \<^verbatim>\<open>None\<close> of a miss\<close>
  "extract_first_object_with_id body_text target_id =
     (case object_span (strip_chunk_prefixes body_text) target_id of
        None \<Rightarrow> JNull
      | Some obj_text \<Rightarrow>
          (case json_loads (normalize_rsc_tokens obj_text) of
             Some v \<Rightarrow> v
           | None \<Rightarrow> JNull))"

section \<open>Python values at run time\<close>

datatype error =
  HTTPError | ConnectionError | KeyError | TypeError | IndexError | AttributeError | OSError
  | UnicodeEncodeError

definition and_then :: "error + 'a \<Rightarrow> ('a \<Rightarrow> error + 'b) \<Rightarrow> error + 'b" where
  "and_then r f = (case r of Inl e \<Rightarrow> Inl e | Inr x \<Rightarrow> f x)"

fun py_truthy :: "json \<Rightarrow> bool" where
  "py_truthy JNull = False"
| "py_truthy (JBool b) = b"
| "py_truthy (JInt n) = (n \<noteq> 0)"
| "py_truthy (JFloat (Finite neg m e)) = (m \<noteq> 0)"
| "py_truthy (JFloat (Infinity neg)) = True"
| "py_truthy (JFloat NaN) = True"
| "py_truthy (JStr s) = (s \<noteq> [])"
| "py_truthy (JArr xs) = (xs \<noteq> [])"
| "py_truthy (JObj ms) = (ms \<noteq> [])"

fun dyadic :: "json \<Rightarrow> (int \<times> int) option" where
  \<comment> \<open>a finite number as \<open>a * 2 ^ e\<close>\<close>
  "dyadic (JBool b) = Some (if b then 1 else 0, 0)"
| "dyadic (JInt n) = Some (n, 0)"
| "dyadic (JFloat (Finite neg m e)) = Some (if neg then - m else m, e)"
| "dyadic _ = None"

definition dyadic_eq :: "int \<times> int \<Rightarrow> int \<times> int \<Rightarrow> bool" where
  "dyadic_eq a b =
     (let k = min (snd a) (snd b)
      in fst a * 2 ^ nat (snd a - k) = fst b * 2 ^ nat (snd b - k))"

definition same_nan :: "json \<Rightarrow> json \<Rightarrow> bool" where
  \<comment> \<open>every \<^verbatim>\<open>NaN\<close> that \<^verbatim>\<open>json.loads\<close> returns is the one object \<^verbatim>\<open>json.decoder.NaN\<close>\<close>
  "same_nan a b = (a = JFloat NaN \<and> b = JFloat NaN)"

text \<open>
  Python's \<^verbatim>\<open>==\<close> on two values that come from different calls of \<^verbatim>\<open>json.loads\<close>:
  numbers and booleans compare by their exact values, \<^verbatim>\<open>nan\<close> equals nothing, not even
  itself; lists compare item by item and dictionaries key by key, where two items are
  equal if they are the same object or \<^verbatim>\<open>==\<close> holds of them (so a \<^verbatim>\<open>nan\<close> inside a list
  equals the \<^verbatim>\<open>nan\<close> at its place in the other).
\<close>

fun py_eq :: "json \<Rightarrow> json \<Rightarrow> bool" where
  "py_eq JNull b = (b = JNull)"
| "py_eq (JStr s) b = (b = JStr s)"
| "py_eq (JArr xs) b =
     (case b of JArr ys \<Rightarrow> list_all2 (\<lambda>x y. same_nan x y \<or> py_eq x y) xs ys | _ \<Rightarrow> False)"
| "py_eq (JObj ms) b =
     (case b of
        JObj ns \<Rightarrow>
          length ms = length ns \<and>
          list_all (\<lambda>(k, v). case map_of ns k of None \<Rightarrow> False
                                 | Some w \<Rightarrow> same_nan v w \<or> py_eq v w) ms
      | _ \<Rightarrow> False)"
| "py_eq (JFloat (Infinity neg)) b = (b = JFloat (Infinity neg))"
| "py_eq a b =
     (case (dyadic a, dyadic b) of (Some x, Some y) \<Rightarrow> dyadic_eq x y | _ \<Rightarrow> False)"

definition py_last :: "json \<Rightarrow> error + json" where
  \<comment> \<open>\<^verbatim>\<open>rows[-1]\<close>\<close>
  "py_last rows =
     (case rows of
        JArr xs \<Rightarrow> if xs = [] then Inl IndexError else Inr (last xs)
      | JStr cs \<Rightarrow> if cs = [] then Inl IndexError else Inr (JStr [last cs])
      | JObj ms \<Rightarrow> Inl KeyError
      | _ \<Rightarrow> Inl TypeError)"

definition py_get_id :: "json \<Rightarrow> error + json" where
  \<comment> \<open>\<^verbatim>\<open>row["id"]\<close>\<close>
  "py_get_id row =
     (case row of
        JObj ms \<Rightarrow> (case map_of ms (str ''id'') of None \<Rightarrow> Inl KeyError | Some v \<Rightarrow> Inr v)
      | _ \<Rightarrow> Inl TypeError)"

definition py_extend :: "json list \<Rightarrow> json \<Rightarrow> error + json list" where
  \<comment> \<open>\<^verbatim>\<open>all_rows.extend(rows)\<close>: the items of a list, the characters of a string, the keys of a dictionary\<close>
  "py_extend all_rows rows =
     (case rows of
        JArr xs \<Rightarrow> Inr (all_rows @ xs)
      | JStr cs \<Rightarrow> Inr (all_rows @ map (\<lambda>c. JStr [c]) cs)
      | JObj ms \<Rightarrow> Inr (all_rows @ map (\<lambda>(k, v). JStr k) ms)
      | _ \<Rightarrow> Inl TypeError)"

definition py_len :: "json \<Rightarrow> error + nat" where
  \<comment> \<open>\<^verbatim>\<open>len(rows)\<close>, as the progress messages of \<^verbatim>\<open>main\<close> take it\<close>
  "py_len rows =
     (case rows of
        JArr xs \<Rightarrow> Inr (length xs)
      | JStr cs \<Rightarrow> Inr (length cs)
      | JObj ms \<Rightarrow> Inr (length ms)
      | _ \<Rightarrow> Inl TypeError)"

section \<open>The HTTP boundary\<close>

text \<open>
  What the module sees of \<^verbatim>\<open>requests\<close>: a call returns a response with a status code and
  a body, or raises a transport exception (\<open>Failed\<close>). The endpoints of one crawl are the
  fields of \<open>world\<close>. The body of the listing page is the sequence of the \<^verbatim>\<open>href\<close> values
  of its \<^verbatim>\<open>a\<close> elements, in document order, as \<^verbatim>\<open>soup.find_all("a", href=True)\<close> yields
  them; \<open>bs4_installed\<close> says whether the import of \<^verbatim>\<open>BeautifulSoup\<close> succeeded. The answer
  to a load-more POST may depend on the page number and on the cursor sent. \<open>csv_file\<close> is
  the file system under \<^verbatim>\<open>write_csv\<close>: the exception, if any, that opening
  \<^verbatim>\<open>datasets_all.csv\<close> and writing the header and the rows raises (the file cannot be
  created, a string holds a code point that UTF-8 cannot encode).
\<close>

datatype 'a http = Response int 'a | Failed

record world =
  post_no_cursor :: "string http"
  post_empty_cursor :: "string http"
  bs4_installed :: bool
  listing :: "string list http"
  detail :: "string \<Rightarrow> string http"
  load_more :: "nat \<Rightarrow> json \<Rightarrow> string http"
  csv_file :: "pystr list \<Rightarrow> (pystr \<times> json) list list \<Rightarrow> error option"

definition PAGE_LIMIT :: nat where
  "PAGE_LIMIT = 24"

definition raise_for_status :: "int \<Rightarrow> bool" where
  \<comment> \<open>whether \<^verbatim>\<open>r.raise_for_status()\<close> raises \<^verbatim>\<open>HTTPError\<close>\<close>
  "raise_for_status st = (400 \<le> st \<and> st < 600)"

definition initial_attempt :: "string http \<Rightarrow> (error + json) \<Rightarrow> error + json" where
  \<comment> \<open>one round of the loop of \<^verbatim>\<open>get_initial_via_post\<close>; \<open>rest\<close> is what the later rounds give\<close>
  "initial_attempt r rest =
     (case r of
        Failed \<Rightarrow> Inl ConnectionError
      | Response st text \<Rightarrow>
          if st \<ge> 400 then rest
          else (let rows = extract_json_array_from_rsc text ''datasets''
                in if py_truthy rows then Inr rows else rest))"

definition get_initial_via_post :: "world \<Rightarrow> error + json" where
  "get_initial_via_post w =
     initial_attempt (post_no_cursor w) (initial_attempt (post_empty_cursor w) (Inr (JArr [])))"

definition is_id_char :: "char \<Rightarrow> bool" where
  \<comment> \<open>the class \<^verbatim>\<open>[a-z0-9]\<close>\<close>
  "is_id_char c = (is_lower c \<or> is_digit c)"

definition dataset_href :: "string \<Rightarrow> string option" where
  \<comment> \<open>\<^verbatim>\<open>re.match(r"^/datasets/([a-z0-9]+)$", href)\<close>, group 1; \<^verbatim>\<open>$\<close> holds at the end of
      the text and before a line feed that ends it\<close>
  "dataset_href href =
     (if starts_with ''/datasets/'' href then
        (let ident = takeWhile is_id_char (drop 10 href);
             rest = drop (10 + length ident) href
         in if ident \<noteq> [] \<and> (rest = [] \<or> rest = [CHR 0x0A]) then Some ident else None)
      else None)"

fun matching_ids :: "string list \<Rightarrow> string list" where
  \<comment> \<open>the first loop of \<^verbatim>\<open>get_initial_ids_from_html\<close>\<close>
  "matching_ids [] = []"
| "matching_ids (href # hrefs) =
     (case dataset_href href of
        Some ident \<Rightarrow> ident # matching_ids hrefs
      | None \<Rightarrow> matching_ids hrefs)"

fun keep_first :: "string set \<Rightarrow> string list \<Rightarrow> string list \<Rightarrow> string list" where
  \<comment> \<open>the second loop, with its variables \<open>seen\<close> and \<open>ordered\<close>\<close>
  "keep_first seen ordered [] = ordered"
| "keep_first seen ordered (i # ids) =
     (if i \<notin> seen then keep_first (insert i seen) (ordered @ [i]) ids
      else keep_first seen ordered ids)"

definition get_initial_ids_from_html :: "world \<Rightarrow> error + string list" where
  "get_initial_ids_from_html w =
     (if \<not> bs4_installed w then Inr []
      else
        (case listing w of
           Failed \<Rightarrow> Inl ConnectionError
         | Response st hrefs \<Rightarrow>
             if raise_for_status st then Inl HTTPError
             else Inr (take PAGE_LIMIT (keep_first {} [] (matching_ids hrefs)))))"

definition get_detail_for_id :: "world \<Rightarrow> string \<Rightarrow> error + json" where
  "get_detail_for_id w ds_id =
     (case detail w ds_id of
        Failed \<Rightarrow> Inl ConnectionError
      | Response st text \<Rightarrow>
          if st \<ge> 400 then Inr JNull
          else Inr (extract_first_object_with_id text ds_id))"

definition post_load_more :: "world \<Rightarrow> nat \<Rightarrow> json \<Rightarrow> error + (json \<times> json)" where
  "post_load_more w page last_id =
     (case load_more w page last_id of
        Failed \<Rightarrow> Inl ConnectionError
      | Response st text \<Rightarrow>
          if raise_for_status st then Inl HTTPError
          else
            (let rows = extract_json_array_from_rsc text ''datasets''
             in if py_truthy rows
                then and_then (py_last rows) (\<lambda>row.
                     and_then (py_get_id row) (\<lambda>next_last. Inr (rows, next_last)))
                else Inr (rows, JNull)))"

section \<open>The main flow\<close>

definition minimal_record :: "string \<Rightarrow> json" where
  \<comment> \<open>\<^verbatim>\<open>{"id": ds_id}\<close>\<close>
  "minimal_record ds_id = JObj [(str ''id'', JStr (str ds_id))]"

fun detail_rows :: "world \<Rightarrow> json list \<Rightarrow> string list \<Rightarrow> error + json list" where
  \<comment> \<open>\<^verbatim>\<open>for ds_id in ids: obj = get_detail_for_id(s, ds_id) or {"id": ds_id}; all_rows.append(obj)\<close>\<close>
  "detail_rows w all_rows [] = Inr all_rows"
| "detail_rows w all_rows (ds_id # ids) =
     and_then (get_detail_for_id w ds_id) (\<lambda>found.
       detail_rows w (all_rows @ [if py_truthy found then found else minimal_record ds_id]) ids)"

definition fallback_branch :: "world \<Rightarrow> error + (json list \<times> json)" where
  \<comment> \<open>the \<^verbatim>\<open>else\<close> branch of part A of \<^verbatim>\<open>main\<close>: the rows collected and the cursor\<close>
  "fallback_branch w =
     and_then (get_initial_ids_from_html w) (\<lambda>ids.
     and_then (detail_rows w [] ids) (\<lambda>all_rows.
       Inr (all_rows, if ids \<noteq> [] then JStr (str (last ids)) else JNull)))"

definition first_page :: "world \<Rightarrow> error + (json list \<times> json)" where
  \<comment> \<open>part A of \<^verbatim>\<open>main\<close>: the rows collected and the cursor \<open>last_id\<close>\<close>
  "first_page w =
     and_then (get_initial_via_post w) (\<lambda>init_rows.
       if py_truthy init_rows then
         and_then (py_len init_rows) (\<lambda>n.
         and_then (py_extend [] init_rows) (\<lambda>all_rows.
         and_then (py_last init_rows) (\<lambda>row.
         and_then (py_get_id row) (\<lambda>last_id. Inr (all_rows, last_id)))))
       else fallback_branch w)"

text \<open>
  Part B, the loop \<^verbatim>\<open>while last_id\<close>. Its variables are the fields of \<open>loop_state\<close>;
  \<open>sent\<close> is added to them and records the cursors of the load-more POSTs made so far, one
  entry per call of \<^verbatim>\<open>post_load_more\<close>. \<open>iteration\<close> is the test of the loop and one run of
  its body: the loop is left (by the test, by \<^verbatim>\<open>break\<close> or by an exception) with the final
  \<open>all_rows\<close> or the exception, or goes round again.
\<close>

record loop_state =
  page :: nat
  all_rows :: "json list"
  last_id :: json
  sent :: "json list"

datatype turn = Exit "error + json list" "json list" | Again loop_state

definition iteration :: "world \<Rightarrow> loop_state \<Rightarrow> turn" where
  "iteration w st =
     (if py_truthy (last_id st) then
        (case post_load_more w (page st) (last_id st) of
           Inl e \<Rightarrow> Exit (Inl e) (sent st @ [last_id st])
         | Inr (rows, next_last) \<Rightarrow>
             (case py_len rows of
                Inl e \<Rightarrow> Exit (Inl e) (sent st @ [last_id st])
              | Inr n \<Rightarrow>
                  if \<not> py_truthy rows \<or> py_eq next_last (last_id st)
                  then Exit (Inr (all_rows st)) (sent st @ [last_id st])
                  else
                    (case py_extend (all_rows st) rows of
                       Inl e \<Rightarrow> Exit (Inl e) (sent st @ [last_id st])
                     | Inr extended \<Rightarrow>
                         Again \<lparr>page = page st + 1, all_rows = extended, last_id = next_last,
                                sent = sent st @ [last_id st]\<rparr>)))
      else Exit (Inr (all_rows st)) (sent st))"

text \<open>The loop may run forever, so its value is an option: \<open>None\<close> where it does not return.\<close>

partial_function (option) paginate :: "world \<Rightarrow> loop_state \<Rightarrow> ((error + json list) \<times> json list) option" where
  "paginate w st =
     (case iteration w st of
        Exit r calls \<Rightarrow> Some (r, calls)
      | Again st' \<Rightarrow> paginate w st')"

declare paginate.simps [code]

text \<open>
  \<^verbatim>\<open>flatten(d, parent)\<close>, with \<^verbatim>\<open>sep = "."\<close>: the dictionary \<^verbatim>\<open>out\<close> as a list of items in
  insertion order. On a value that is no dictionary, \<^verbatim>\<open>d.items()\<close> raises
  \<^verbatim>\<open>AttributeError\<close>; the recursive call is made on dictionaries only.
\<close>

definition is_dict :: "json \<Rightarrow> bool" where
  \<comment> \<open>\<^verbatim>\<open>isinstance(v, dict)\<close>\<close>
  "is_dict v = (case v of JObj d \<Rightarrow> True | _ \<Rightarrow> False)"

definition dict_update :: "(pystr \<times> json) list \<Rightarrow> (pystr \<times> json) list \<Rightarrow> (pystr \<times> json) list" where
  \<comment> \<open>\<^verbatim>\<open>out.update(other)\<close>\<close>
  "dict_update out other = foldl (\<lambda>acc (k, v). dict_set acc k v) out other"

fun flatten :: "json \<Rightarrow> pystr \<Rightarrow> error + (pystr \<times> json) list" where
  "flatten (JObj d) parent =
     foldl (\<lambda>acc (k, v).
              and_then acc (\<lambda>out.
                let key = (if parent \<noteq> [] then parent @ str ''.'' @ k else k)
                in if is_dict v
                   then and_then (flatten v key) (\<lambda>inner. Inr (dict_update out inner))
                   else Inr (dict_set out key v)))
           (Inr []) d"
| "flatten v parent = Inl AttributeError"

text \<open>
  \<^verbatim>\<open>write_csv(rows, path)\<close>: the exception it raises, if any. The rows are flattened first,
  so a row that is no dictionary ends the call before the file is opened. The header is
  the preferred columns that occur, then the other keys in order of first appearance.
\<close>

fun flatten_all :: "json list \<Rightarrow> error + (pystr \<times> json) list list" where
  \<comment> \<open>\<^verbatim>\<open>[flatten(r) for r in rows]\<close>\<close>
  "flatten_all [] = Inr []"
| "flatten_all (r # rows) =
     and_then (flatten r []) (\<lambda>fr. and_then (flatten_all rows) (\<lambda>flat. Inr (fr # flat)))"

definition preferred :: "pystr list" where
  "preferred =
     map str [''id'', ''slug'', ''name'', ''description'', ''locale'', ''sizeBytes'', ''createdAt'',
              ''metadata.task'', ''metadata.format'', ''metadata.license'',
              ''organization.name'', ''organization.slug'']"

definition write_csv :: "world \<Rightarrow> json list \<Rightarrow> error option" where
  "write_csv w rows =
     (case flatten_all rows of
        Inl e \<Rightarrow> Some e
      | Inr flat \<Rightarrow>
          (let keys_order = foldl (\<lambda>acc k. if k \<in> set acc then acc else acc @ [k]) []
                              (concat (map (map fst) flat));
               ordered = filter (\<lambda>k. k \<in> set keys_order) preferred
                         @ filter (\<lambda>k. k \<notin> set preferred) keys_order
           in csv_file w ordered flat))"

text \<open>
  \<^verbatim>\<open>main\<close> ends in a call of \<^verbatim>\<open>write_csv(all_rows, OUT_CSV)\<close> or in an exception that leaves
  it before that call. \<open>handed\<close> holds the rows \<^verbatim>\<open>write_csv\<close> is called with, \<open>raised\<close>
  the exception that ends \<^verbatim>\<open>main\<close> (that of \<^verbatim>\<open>write_csv\<close> where it is reached), \<open>posts\<close>
  the cursors of the load-more POSTs made. Writing the progress messages to the standard
  output is taken to succeed.
\<close>

record outcome =
  handed :: "json list option"
  raised :: "error option"
  posts :: "json list"

definition main :: "world \<Rightarrow> outcome option" where
  "main w =
     (case first_page w of
        Inl e \<Rightarrow> Some \<lparr>handed = None, raised = Some e, posts = []\<rparr>
      | Inr (rows, cursor) \<Rightarrow>
          (case paginate w \<lparr>page = 2, all_rows = rows, last_id = cursor, sent = []\<rparr> of
             None \<Rightarrow> None
           | Some (Inl e, calls) \<Rightarrow> Some \<lparr>handed = None, raised = Some e, posts = calls\<rparr>
           | Some (Inr final_rows, calls) \<Rightarrow>
               Some \<lparr>handed = Some final_rows, raised = write_csv w final_rows, posts = calls\<rparr>))"

text \<open>
  The script: \<^verbatim>\<open>main()\<close> under the guard that catches \<^verbatim>\<open>requests.HTTPError\<close>, prints and
  calls \<^verbatim>\<open>sys.exit(1)\<close>; any other exception, that of \<^verbatim>\<open>write_csv\<close> too, ends the
  interpreter with status 1 as well. The result is the exit status and the rows that were
  handed to \<^verbatim>\<open>write_csv\<close>.
\<close>

definition script :: "world \<Rightarrow> (nat \<times> json list option) option" where
  "script w =
     (case main w of
        None \<Rightarrow> None
      | Some out \<Rightarrow> Some (case raised out of None \<Rightarrow> 0 | Some e \<Rightarrow> 1, handed out))"

text \<open>The state after \<open>n\<close> further rounds of the loop, where it goes round that often.\<close>

fun state_after :: "world \<Rightarrow> nat \<Rightarrow> loop_state \<Rightarrow> loop_state option" where
  "state_after w 0 st = Some st"
| "state_after w (Suc n) st =
     (case iteration w st of Exit r calls \<Rightarrow> None | Again st' \<Rightarrow> state_after w n st')"

section \<open>Token normalization\<close>

text \<open>
  Every pattern of \<^verbatim>\<open>normalize_rsc_tokens\<close> starts with \<^verbatim>\<open>$\<close> or with \<^verbatim>\<open>"$\<close>, and what it
  puts in place of a match that starts with the quote does not start with \<^verbatim>\<open>$\<close>.
\<close>

definition dollar_led :: "(string \<Rightarrow> (string \<times> nat) option) \<Rightarrow> bool" where
  "dollar_led m =
     (\<forall>s r n. m s = Some (r, n) \<longrightarrow>
        starts_with ''$'' s \<or> (starts_with [CHR 0x22, CHR ''$''] s \<and> r \<noteq> [] \<and> hd r \<noteq> CHR ''$''))"

lemma quoted_token_dollar_led:
  assumes "\<And>body. body \<noteq> [] \<Longrightarrow> list_all cls body \<Longrightarrow> repl body \<noteq> [] \<and> hd (repl body) \<noteq> CHR ''$''"
  shows "dollar_led (quoted_token (CHR ''$'' # tag) cls repl)"
  unfolding dollar_led_def
proof (intro allI impI)
  fix s r n
  assume m: "quoted_token (CHR ''$'' # tag) cls repl s = Some (r, n)"
  let ?body = "takeWhile cls (drop (Suc (length (CHR ''$'' # tag))) s)"
  from m have st: "starts_with (CHR 0x22 # CHR ''$'' # tag) s" and b: "?body \<noteq> []" and r: "r = repl ?body"
    by (auto simp: quoted_token_def Let_def split: if_splits)
  from st have "starts_with [CHR 0x22, CHR ''$''] s"
    by (cases s; cases "tl s") (auto simp: starts_with_def)
  moreover have "list_all cls ?body"
    by (simp add: list_all_iff) (meson set_takeWhileD)
  with assms b r have "r \<noteq> [] \<and> hd r \<noteq> CHR ''$''" by simp
  ultimately show "starts_with ''$'' s \<or> (starts_with [CHR 0x22, CHR ''$''] s \<and> r \<noteq> [] \<and> hd r \<noteq> CHR ''$'')"
    by simp
qed

lemma bare_token_dollar_led: "dollar_led (bare_token (CHR ''$'' # tag) cls repl)"
  unfolding dollar_led_def
proof (intro allI impI)
  fix s r n
  assume "bare_token (CHR ''$'' # tag) cls repl s = Some (r, n)"
  then have "starts_with (CHR ''$'' # tag) s"
    by (auto simp: bare_token_def Let_def split: if_splits)
  then have "starts_with ''$'' s"
    by (cases s) (auto simp: starts_with_def)
  then show "starts_with ''$'' s \<or> (starts_with [CHR 0x22, CHR ''$''] s \<and> r \<noteq> [] \<and> hd r \<noteq> CHR ''$'')"
    by simp
qed


lemma re_sub_head:
  assumes led: "dollar_led m"
    and head: "\<not> starts_with ''$'' s"
  shows "\<not> starts_with ''$'' (re_sub m s)"
proof (cases s)
  case Nil
  then show ?thesis by (simp add: starts_with_def)
next
  case (Cons c cs)
  with head have c: "c \<noteq> CHR ''$''" by (simp add: starts_with_def)
  show ?thesis
  proof (cases "m (c # cs)")
    case None
    with Cons c show ?thesis by (simp add: starts_with_def)
  next
    case (Some x)
    obtain r n where x: "x = (r, n)" by (cases x)
    with Some led c have "r \<noteq> [] \<and> hd r \<noteq> CHR ''$''"
      unfolding dollar_led_def by (fastforce simp: starts_with_def)
    then obtain d r' where "r = d # r'" and "d \<noteq> CHR ''$''" by (cases r) auto
    with Cons Some x show ?thesis by (simp add: starts_with_def)
  qed
qed

lemma digit_not_dollar: "is_digit c \<Longrightarrow> c \<noteq> CHR ''$''"
  by (auto simp: is_digit_def)

lemma led1: "dollar_led (quoted_token ''$n'' is_digit (\<lambda>b. b))"
proof (rule quoted_token_dollar_led)
  fix body :: string
  assume "body \<noteq> []" and "list_all is_digit body"
  then show "body \<noteq> [] \<and> hd body \<noteq> CHR ''$''"
    by (cases body) (auto simp: digit_not_dollar)
qed

lemma led2: "dollar_led (bare_token ''$n'' is_digit (\<lambda>b. b))"
  by (rule bare_token_dollar_led)

lemma led3: "dollar_led (quoted_token ''$D'' (\<lambda>c. c \<noteq> CHR 0x22) quote)"
  by (rule quoted_token_dollar_led) (simp add: quote_def)

lemma led4: "dollar_led (bare_token ''$D'' is_date_char quote)"
  by (rule bare_token_dollar_led)

lemma led5: "dollar_led (quoted_token ''$'' is_ref_char (\<lambda>b. ''null''))"
  by (rule quoted_token_dollar_led) simp

lemma led6: "dollar_led (bare_token ''$'' is_ref_char (\<lambda>b. ''null''))"
  by (rule bare_token_dollar_led)

text \<open>The six substitutions, each applied to the result of the one before.\<close>

definition stage :: "nat \<Rightarrow> string \<Rightarrow> string" where
  "stage k s =
     (if k = 1 then re_sub (quoted_token ''$n'' is_digit (\<lambda>b. b)) s
      else if k = 2 then re_sub (bare_token ''$n'' is_digit (\<lambda>b. b)) s
      else if k = 3 then re_sub (quoted_token ''$D'' (\<lambda>c. c \<noteq> CHR 0x22) quote) s
      else if k = 4 then re_sub (bare_token ''$D'' is_date_char quote) s
      else if k = 5 then re_sub (quoted_token ''$'' is_ref_char (\<lambda>b. ''null'')) s
      else if k = 6 then re_sub (bare_token ''$'' is_ref_char (\<lambda>b. ''null'')) s
      else s)"



lemma stage_head: "\<not> starts_with ''$'' s \<Longrightarrow> \<not> starts_with ''$'' (stage k s)"
  by (simp add: stage_def re_sub_head led1 led2 led3 led4 led5 led6)

section \<open>Tokens in well-formed text\<close>




























section \<open>The scanner on balanced text\<close>

text \<open>
  The content of a string literal, as the extractor's contract describes it: a backslash
  takes the character behind it along, whatever it is, and no other quote occurs. Brackets
  and braces are ordinary characters of it.
\<close>

fun string_body :: "string \<Rightarrow> bool" where
  "string_body [] = True"
| "string_body (c # cs) =
     (if c = CHR 0x5C then (case cs of [] \<Rightarrow> False | e # r \<Rightarrow> string_body r)
      else c \<noteq> CHR 0x22 \<and> string_body cs)"

text \<open>
  Text that is balanced for a pair of brackets: string literals, bracketed balanced text
  and characters that are neither a bracket of the pair nor a quote.
\<close>

inductive balanced :: "char \<Rightarrow> char \<Rightarrow> string \<Rightarrow> bool" for opn cls :: char where
  empty: "balanced opn cls []"
| plain: "c \<noteq> opn \<Longrightarrow> c \<noteq> cls \<Longrightarrow> c \<noteq> CHR 0x22 \<Longrightarrow> balanced opn cls w \<Longrightarrow> balanced opn cls (c # w)"
| literal: "string_body b \<Longrightarrow> balanced opn cls w \<Longrightarrow> balanced opn cls (CHR 0x22 # b @ CHR 0x22 # w)"
| nested: "balanced opn cls u \<Longrightarrow> balanced opn cls w \<Longrightarrow> balanced opn cls (opn # u @ cls # w)"

lemma skip_string_body:
  "string_body b \<Longrightarrow> skip_string (pre @ b @ CHR 0x22 # post) (length pre) = length pre + length b"
proof (induction b arbitrary: pre rule: string_body.induct)
  case 1
  show ?case by (subst skip_string.simps) simp
next
  case (2 c cs)
  show ?case
  proof (cases "c = CHR 0x5C")
    case True
    with 2(3) obtain e r where cs: "cs = e # r" and r: "string_body r"
      by (cases cs) auto
    from 2(1) [OF True cs r, of "pre @ [c, e]"]
    have "skip_string (pre @ c # e # r @ CHR 0x22 # post) (length pre + 2) = length pre + 2 + length r"
      by simp
    with True cs show ?thesis
      by (subst skip_string.simps) (simp add: nth_append)
  next
    case False
    with 2(3) have q: "c \<noteq> CHR 0x22" and b: "string_body cs" by auto
    from 2(2) [OF False b, of "pre @ [c]"]
    have "skip_string (pre @ c # cs @ CHR 0x22 # post) (length pre + 1) = length pre + 1 + length cs"
      by simp
    with False q show ?thesis
      by (subst skip_string.simps) (simp add: nth_append)
  qed
qed

lemma scan_span_step:
  assumes "s = pre @ c # rest"
  shows "scan_span opn cls s start depth (length pre) =
     (if c = opn then scan_span opn cls s start (depth + 1) (length pre + 1)
      else if c = cls then
        (if depth - 1 = 0 then Some (take (length pre + 1 - start) (drop start s))
         else scan_span opn cls s start (depth - 1) (length pre + 1))
      else if c = CHR 0x22 then
        scan_span opn cls s start depth (skip_string s (length pre + 1) + 1)
      else scan_span opn cls s start depth (length pre + 1))"
  using assms by (subst scan_span.simps) (simp add: nth_append)

lemma scan_over_balanced:
  assumes "balanced opn cls u" and "opn \<noteq> cls" and "opn \<noteq> CHR 0x22" and "cls \<noteq> CHR 0x22"
  shows "1 \<le> depth \<Longrightarrow>
         scan_span opn cls (pre @ u @ post) start depth (length pre)
         = scan_span opn cls (pre @ u @ post) start depth (length pre + length u)"
  using assms(1)
proof (induction u arbitrary: pre post depth)
  case empty
  show ?case by simp
next
  case (plain c w)
  have "scan_span opn cls (pre @ (c # w) @ post) start depth (length pre)
        = scan_span opn cls (pre @ (c # w) @ post) start depth (length pre + 1)"
    using plain.hyps by (subst scan_span_step [where pre = pre and c = c and rest = "w @ post"]) simp_all
  also have "\<dots> = scan_span opn cls ((pre @ [c]) @ w @ post) start depth (length (pre @ [c]))"
    by simp
  also have "\<dots> = scan_span opn cls ((pre @ [c]) @ w @ post) start depth (length (pre @ [c]) + length w)"
    by (rule plain.IH) (rule plain.prems)
  finally show ?case by simp
next
  case (literal b w)
  let ?s = "pre @ (CHR 0x22 # b @ CHR 0x22 # w) @ post"
  have skip: "skip_string ?s (length pre + 1) = length pre + 1 + length b"
    using skip_string_body [OF literal.hyps(1), of "pre @ [CHR 0x22]" "w @ post"] by simp
  have "scan_span opn cls ?s start depth (length pre)
        = scan_span opn cls ?s start depth (skip_string ?s (length pre + 1) + 1)"
    using assms(3,4)
    by (subst scan_span_step [where pre = pre and c = "CHR 0x22" and rest = "b @ CHR 0x22 # w @ post"])
       simp_all
  also have "\<dots> = scan_span opn cls ((pre @ CHR 0x22 # b @ [CHR 0x22]) @ w @ post) start depth
                     (length (pre @ CHR 0x22 # b @ [CHR 0x22]))"
    using skip by simp
  also have "\<dots> = scan_span opn cls ((pre @ CHR 0x22 # b @ [CHR 0x22]) @ w @ post) start depth
                     (length (pre @ CHR 0x22 # b @ [CHR 0x22]) + length w)"
    by (rule literal.IH) (rule literal.prems)
  finally show ?case by (simp add: add.assoc)
next
  case (nested u w)
  let ?s = "pre @ (opn # u @ cls # w) @ post"
  have "scan_span opn cls ?s start depth (length pre)
        = scan_span opn cls ?s start (depth + 1) (length pre + 1)"
    by (subst scan_span_step [where pre = pre and c = opn and rest = "u @ cls # w @ post"]) simp_all
  also have "\<dots> = scan_span opn cls ((pre @ [opn]) @ u @ (cls # w @ post)) start (depth + 1)
                     (length (pre @ [opn]))"
    by simp
  also have "\<dots> = scan_span opn cls ((pre @ [opn]) @ u @ (cls # w @ post)) start (depth + 1)
                     (length (pre @ [opn]) + length u)"
    using nested.prems by (intro nested.IH(1)) simp
  also have "\<dots> = scan_span opn cls ((pre @ opn # u) @ cls # w @ post) start (depth + 1)
                     (length (pre @ opn # u))"
    by simp
  also have "\<dots> = scan_span opn cls ((pre @ opn # u) @ cls # w @ post) start depth
                     (length (pre @ opn # u) + 1)"
    using nested.prems assms(2)
    by (subst scan_span_step [where pre = "pre @ opn # u" and c = cls and rest = "w @ post"]) simp_all
  also have "\<dots> = scan_span opn cls ((pre @ opn # u @ [cls]) @ w @ post) start depth
                     (length (pre @ opn # u @ [cls]))"
    by simp
  also have "\<dots> = scan_span opn cls ((pre @ opn # u @ [cls]) @ w @ post) start depth
                     (length (pre @ opn # u @ [cls]) + length w)"
    by (rule nested.IH(2)) (rule nested.prems)
  finally show ?case by (simp add: add.assoc)
qed

lemma scan_balanced_span:
  assumes "balanced opn cls u" and "opn \<noteq> cls" and "opn \<noteq> CHR 0x22" and "cls \<noteq> CHR 0x22"
  shows "scan_span opn cls (pre @ opn # u @ cls # post) (length pre) 0 (length pre)
         = Some (opn # u @ [cls])"
proof -
  let ?s = "pre @ opn # u @ cls # post"
  have "scan_span opn cls ?s (length pre) 0 (length pre)
        = scan_span opn cls ?s (length pre) 1 (length pre + 1)"
    by (subst scan_span_step [where pre = pre and c = opn and rest = "u @ cls # post"]) simp_all
  also have "\<dots> = scan_span opn cls ((pre @ [opn]) @ u @ (cls # post)) (length pre) 1
                     (length (pre @ [opn]))"
    by simp
  also have "\<dots> = scan_span opn cls ((pre @ [opn]) @ u @ (cls # post)) (length pre) 1
                     (length (pre @ [opn]) + length u)"
    by (rule scan_over_balanced [OF assms]) simp
  also have "\<dots> = scan_span opn cls ((pre @ opn # u) @ cls # post) (length pre) 1
                     (length (pre @ opn # u))"
    by simp
  also have "\<dots> = Some (take (length (pre @ opn # u) + 1 - length pre)
                           (drop (length pre) ((pre @ opn # u) @ cls # post)))"
    using assms(2)
    by (subst scan_span_step [where pre = "pre @ opn # u" and c = cls and rest = post]) simp_all
  also have "\<dots> = Some (opn # u @ [cls])"
    by simp
  finally show ?thesis .
qed

text \<open>
  C4. In every text in which the bracket that ends the leftmost match of the key anchor
  opens a balanced array, the by-key extractor returns that array from its opening
  bracket to the matching closing bracket, whatever the string literals inside the array
  hold: brackets and braces inside a literal do not count, and a quote behind a backslash
  does not end the literal.
\<close>

theorem array_span_skips_string_literals:
  assumes anchor: "re_search (key_anchor key) 0 joined = Some (m_start, m_end)"
    and bracket: "m_end = length head + 1"
    and shape: "joined = head @ ''['' @ body @ '']'' @ post"
    and body: "balanced CHR ''['' CHR '']'' body"
  shows "array_span joined key = Some (''['' @ body @ '']'')"
proof -
  have "scan_span CHR ''['' CHR '']'' (head @ CHR ''['' # body @ CHR '']'' # post)
          (length head) 0 (length head)
        = Some (CHR ''['' # body @ [CHR '']''])"
    by (rule scan_balanced_span [OF body]) simp_all
  with anchor bracket shape show ?thesis
    by (simp add: array_span_def)
qed

definition tricky_literal :: string where
  \<comment> \<open>brackets, braces and an escaped quote\<close>
  "tricky_literal = ''a]{['' @ [CHR 0x5C, CHR 0x22] @ ''x}''"

definition tricky_body :: string where
  \<comment> \<open>an object with the tricky literal as a value, and a nested array\<close>
  \<open>tricky_body = ''{"d":'' @ quote tricky_literal @ ''},[1]''\<close>

lemma tricky_body_balanced: "balanced CHR ''['' CHR '']'' tricky_body"
proof -
  have e: "balanced CHR ''['' CHR '']'' []"
    by (rule balanced.empty)
  have one: "balanced CHR ''['' CHR '']'' ''1''"
    by (rule balanced.plain [OF _ _ _ e]) simp_all
  from balanced.nested [OF one e] have arr: "balanced CHR ''['' CHR '']'' ''[1]''"
    by simp
  have comma: "balanced CHR ''['' CHR '']'' '',[1]''"
    by (rule balanced.plain [OF _ _ _ arr]) simp_all
  have brace: "balanced CHR ''['' CHR '']'' ''},[1]''"
    by (rule balanced.plain [OF _ _ _ comma]) simp_all
  have lit: "string_body tricky_literal"
    by (simp add: tricky_literal_def)
  from balanced.literal [OF lit brace]
  have val: "balanced CHR ''['' CHR '']'' (quote tricky_literal @ ''},[1]'')"
    by (simp add: quote_def)
  have colon: "balanced CHR ''['' CHR '']'' (CHR '':'' # quote tricky_literal @ ''},[1]'')"
    by (rule balanced.plain [OF _ _ _ val]) simp_all
  have d: "string_body ''d''"
    by simp
  from balanced.literal [OF d colon]
  have key: "balanced CHR ''['' CHR '']'' (CHR 0x22 # CHR ''d'' # CHR 0x22 # CHR '':'' # quote tricky_literal @ ''},[1]'')"
    by simp
  have "balanced CHR ''['' CHR '']'' (CHR ''{'' # CHR 0x22 # CHR ''d'' # CHR 0x22 # CHR '':'' # quote tricky_literal @ ''},[1]'')"
    by (rule balanced.plain [OF _ _ _ key]) simp_all
  then show ?thesis
    by (simp add: tricky_body_def)
qed

definition tricky_text :: string where
  \<open>tricky_text = ''{"note":"[","datasets" : ['' @ tricky_body @ ''],"n":[2]}''\<close>

theorem array_span_skips_string_literals_witness:
  \<open>re_search (key_anchor ''datasets'') 0 tricky_text = Some (12, 26)
   \<and> tricky_text = ''{"note":"[","datasets" : '' @ ''['' @ tricky_body @ '']'' @ '',"n":[2]}''
   \<and> string_body tricky_literal
   \<and> balanced CHR ''['' CHR '']'' tricky_body
   \<and> array_span tricky_text ''datasets'' = Some (''['' @ tricky_body @ '']'')\<close>
proof -
  have h1: "re_search (key_anchor ''datasets'') 0 tricky_text = Some (12, 26)"
    by code_simp
  have h2: \<open>(26 :: nat) = length ''{"note":"[","datasets" : '' + 1\<close>
    by simp
  have h3: \<open>tricky_text = ''{"note":"[","datasets" : '' @ ''['' @ tricky_body @ '']'' @ '',"n":[2]}''\<close>
    by (simp add: tricky_text_def)
  have h4: "string_body tricky_literal"
    by (simp add: tricky_literal_def)
  from array_span_skips_string_literals [OF h1 h2 h3 tricky_body_balanced] h1 h3 h4
    tricky_body_balanced
  show ?thesis by simp
qed

section \<open>Decode misses\<close>

text \<open>
  C6. On a record that is cut off before it closes, the by-value decoder returns a part of
  it where the claim has an absent result. In the text \<^verbatim>\<open>{"a":{"x":1},"id":"abc123"\<close> the
  object that holds the anchor opens at index 0 and never closes: the scan from that brace
  runs to the end of the text. The walk to the left ends on the brace of the nested object
  at index 5, the depth counted from there is back at zero at index 11, and the decoder
  returns \<^verbatim>\<open>{"x":1}\<close>, a fragment of the unfinished record.
\<close>

theorem cut_off_record_yields_fragment:
  \<open>strip_chunk_prefixes ''{"a":{"x":1},"id":"abc123"'' = ''{"a":{"x":1},"id":"abc123"''
   \<and> find_from (id_anchor ''abc123'') 0 ''{"a":{"x":1},"id":"abc123"'' = Some 13
   \<and> scan_span CHR ''{'' CHR ''}'' ''{"a":{"x":1},"id":"abc123"'' 0 0 0 = None
   \<and> walk_left ''{"a":{"x":1},"id":"abc123"'' 13 = 5
   \<and> object_span ''{"a":{"x":1},"id":"abc123"'' ''abc123'' = Some ''{"x":1}''
   \<and> extract_first_object_with_id ''{"a":{"x":1},"id":"abc123"'' ''abc123''
      = JObj [(str ''x'', JInt 1)]\<close>
  by code_simp

section \<open>The by-value decoder and nested objects\<close>

text \<open>
  C2. On an object that holds a nested object before its \<^verbatim>\<open>"id"\<close> field, the walk to the
  left ends on the brace of that nested object, and the decoder returns the sibling
  \<^verbatim>\<open>{"x":1}\<close>, which closes before the anchor and does not contain it.
\<close>

theorem sibling_object_is_returned:
  \<open>object_span ''{"a":{"x":1},"id":"abc123"}'' ''abc123'' = Some ''{"x":1}''
   \<and> extract_first_object_with_id ''{"a":{"x":1},"id":"abc123"}'' ''abc123''
      = JObj [(str ''x'', JInt 1)]\<close>
  by code_simp

section \<open>The by-key decoder returns a list\<close>

















section \<open>The pagination loop\<close>

lemma paginate_exit: "iteration w st = Exit r calls \<Longrightarrow> paginate w st = Some (r, calls)"
  by (subst paginate.simps) simp

lemma paginate_again: "iteration w st = Again st' \<Longrightarrow> paginate w st = paginate w st'"
  by (subst paginate.simps) simp

lemma paginate_after: "state_after w n st = Some st' \<Longrightarrow> paginate w st = paginate w st'"
proof (induction n arbitrary: st)
  case 0
  then show ?case by simp
next
  case (Suc n)
  then obtain st1 where a: "iteration w st = Again st1" and b: "state_after w n st1 = Some st'"
    by (auto split: turn.splits)
  from Suc.IH [OF b] paginate_again [OF a] show ?case by simp
qed




definition record_of :: "string \<Rightarrow> json" where
  "record_of ident = JObj [(str ''id'', JStr (str ident))]"












definition failing_world :: world where
  \<comment> \<open>page 1 holds a and b; the POST for page 2 is answered with status 500\<close>
  \<open>failing_world =
     \<lparr>post_no_cursor = Response 200 ''0:{"datasets":[{"id":"a"},{"id":"b"}]}'',
      post_empty_cursor = Failed,
      bs4_installed = True,
      listing = Failed,
      detail = (\<lambda>ds_id. Failed),
      load_more = (\<lambda>n cursor. Response 500 []),
      csv_file = (\<lambda>header rows. None)\<rparr>\<close>

definition dropping_world :: world where
  \<comment> \<open>page 1 holds a and b, page 2 holds c; the POST for page 3 raises in the transport\<close>
  \<open>dropping_world =
     \<lparr>post_no_cursor = Response 200 ''0:{"datasets":[{"id":"a"},{"id":"b"}]}'',
      post_empty_cursor = Failed,
      bs4_installed = True,
      listing = Failed,
      detail = (\<lambda>ds_id. Failed),
      load_more = (\<lambda>n cursor. if n = 2 then Response 200 ''0:{"datasets":[{"id":"c"}]}'' else Failed),
      csv_file = (\<lambda>header rows. None)\<rparr>\<close>

text \<open>
  C1, as the code has it. Where a load-more fetch raises after the loop has gone round \<open>n\<close>
  times, \<^verbatim>\<open>main\<close> is left with that exception before \<^verbatim>\<open>write_csv\<close> is reached: no rows
  are handed to the output boundary, however many have been collected, the POSTs made are
  those up to the failing one, and the script ends with status 1.
\<close>

theorem failed_fetch_hands_over_nothing:
  assumes first: "first_page w = Inr (rows0, cursor0)"
    and rounds: "state_after w n \<lparr>page = 2, all_rows = rows0, last_id = cursor0, sent = []\<rparr> = Some st"
    and cursor: "py_truthy (last_id st)"
    and fetch: "post_load_more w (page st) (last_id st) = Inl e"
  shows "main w = Some \<lparr>handed = None, raised = Some e, posts = sent st @ [last_id st]\<rparr>
         \<and> script w = Some (1, None)"
proof -
  from cursor fetch have "iteration w st = Exit (Inl e) (sent st @ [last_id st])"
    by (auto simp: iteration_def)
  then have "paginate w st = Some (Inl e, sent st @ [last_id st])"
    by (rule paginate_exit)
  with paginate_after [OF rounds]
  have "paginate w \<lparr>page = 2, all_rows = rows0, last_id = cursor0, sent = []\<rparr>
        = Some (Inl e, sent st @ [last_id st])" by simp
  with first
  have "main w = Some \<lparr>handed = None, raised = Some e, posts = sent st @ [last_id st]\<rparr>"
    by (simp add: main_def)
  then show ?thesis by (simp add: script_def)
qed

theorem failed_fetch_hands_over_nothing_witness:
  "first_page dropping_world = Inr ([record_of ''a'', record_of ''b''], JStr (str ''b''))
   \<and> state_after dropping_world 1
        \<lparr>page = 2, all_rows = [record_of ''a'', record_of ''b''], last_id = JStr (str ''b''), sent = []\<rparr>
      = Some \<lparr>page = 3, all_rows = [record_of ''a'', record_of ''b'', record_of ''c''],
              last_id = JStr (str ''c''), sent = [JStr (str ''b'')]\<rparr>
   \<and> post_load_more dropping_world 3 (JStr (str ''c'')) = Inl ConnectionError
   \<and> main dropping_world
      = Some \<lparr>handed = None, raised = Some ConnectionError,
              posts = [JStr (str ''b''), JStr (str ''c'')]\<rparr>
   \<and> script dropping_world = Some (1, None)"
proof -
  let ?st = "\<lparr>page = 3, all_rows = [record_of ''a'', record_of ''b'', record_of ''c''],
              last_id = JStr (str ''c''), sent = [JStr (str ''b'')]\<rparr>"
  have h1: "first_page dropping_world = Inr ([record_of ''a'', record_of ''b''], JStr (str ''b''))"
    by code_simp
  have h2: "state_after dropping_world 1
        \<lparr>page = 2, all_rows = [record_of ''a'', record_of ''b''], last_id = JStr (str ''b''), sent = []\<rparr>
      = Some ?st"
    by code_simp
  have h3: "py_truthy (last_id ?st)"
    by code_simp
  have h4: "post_load_more dropping_world (page ?st) (last_id ?st) = Inl ConnectionError"
    by code_simp
  from failed_fetch_hands_over_nothing [OF h1 h2 h3 h4] h1 h2 h4
  show ?thesis by simp
qed

text \<open>
  C1, as the claim states it, fails: in \<open>failing_world\<close> the first page yields two records,
  the fetch of page 2 raises \<^verbatim>\<open>HTTPError\<close>, and \<^verbatim>\<open>main\<close> ends without a call of
  \<^verbatim>\<open>write_csv\<close>.
\<close>

theorem records_dropped_on_failure:
  "first_page failing_world = Inr ([record_of ''a'', record_of ''b''], JStr (str ''b''))
   \<and> main failing_world
      = Some \<lparr>handed = None, raised = Some HTTPError, posts = [JStr (str ''b'')]\<rparr>
   \<and> script failing_world = Some (1, None)"
  by code_simp

section \<open>The fallback branch\<close>

lemma get_detail_returns:
  "detail w i \<noteq> Failed \<Longrightarrow> \<exists>found. get_detail_for_id w i = Inr found"
  by (cases "detail w i") (auto simp: get_detail_for_id_def)

lemma detail_rows_map:
  "\<forall>i\<in>set ids. detail w i \<noteq> Failed \<Longrightarrow>
   detail_rows w acc ids
   = Inr (acc @ map (\<lambda>i. if py_truthy (projr (get_detail_for_id w i))
                          then projr (get_detail_for_id w i) else minimal_record i) ids)"
proof (induction ids arbitrary: acc)
  case Nil
  then show ?case by simp
next
  case (Cons i ids)
  let ?row = "\<lambda>i. if py_truthy (projr (get_detail_for_id w i))
                   then projr (get_detail_for_id w i) else minimal_record i"
  from Cons.prems obtain found where f: "get_detail_for_id w i = Inr found"
    using get_detail_returns [of w i] by auto
  from Cons have "detail_rows w (acc @ [?row i]) ids = Inr ((acc @ [?row i]) @ map ?row ids)"
    by simp
  with f show ?case by (cases "py_truthy found") (simp_all add: and_then_def)
qed

definition seeded_world :: world where
  \<comment> \<open>both first-page POSTs are refused; the listing links a1, a2 and a1 again; the detail
      page of a1 is missing, that of a2 decodes\<close>
  \<open>seeded_world =
     \<lparr>post_no_cursor = Response 403 [],
      post_empty_cursor = Response 403 [],
      bs4_installed = True,
      listing = Response 200 [''/datasets/a1'', ''/about'', ''/datasets/a2'', ''/datasets/a1''],
      detail = (\<lambda>ds_id. if ds_id = ''a2'' then Response 200 ''1:{"id":"a2","name":"two"}''
                          else Response 404 []),
      load_more = (\<lambda>n cursor. Response 200 []),
      csv_file = (\<lambda>header rows. None)\<rparr>\<close>

lemma detail_rows_failed:
  "\<exists>i\<in>set ids. detail w i = Failed \<Longrightarrow> detail_rows w acc ids = Inl ConnectionError"
proof (induction ids arbitrary: acc)
  case Nil
  then show ?case by simp
next
  case (Cons i ids)
  show ?case
  proof (cases "detail w i")
    case Failed
    then show ?thesis
      by (simp add: get_detail_for_id_def and_then_def)
  next
    case (Response st body)
    with Cons.prems have "\<exists>i\<in>set ids. detail w i = Failed" by auto
    then have "\<And>acc. detail_rows w acc ids = Inl ConnectionError"
      by (rule Cons.IH)
    with Response show ?thesis
      by (simp add: get_detail_for_id_def and_then_def)
  qed
qed

definition unreachable_world :: world where
  \<comment> \<open>both first-page POSTs are refused; the listing links a1 and a2; the detail page of a1
      is missing, the GET for that of a2 raises in the transport\<close>
  \<open>unreachable_world =
     \<lparr>post_no_cursor = Response 403 [],
      post_empty_cursor = Response 403 [],
      bs4_installed = True,
      listing = Response 200 [''/datasets/a1'', ''/datasets/a2''],
      detail = (\<lambda>ds_id. if ds_id = ''a2'' then Failed else Response 404 []),
      load_more = (\<lambda>n cursor. Response 200 []),
      csv_file = (\<lambda>header rows. None)\<rparr>\<close>

text \<open>
  C9, as the claim states it, fails: \<^verbatim>\<open>get_detail_for_id\<close> calls \<^verbatim>\<open>session.get\<close> outside of
  any \<^verbatim>\<open>try\<close>, and the \<^verbatim>\<open>or\<close> of line 259 covers a \<^verbatim>\<open>None\<close> or empty return only. In
  \<open>unreachable_world\<close> the detail page of the seed a1 is missing and the GET for the seed
  a2 raises: the branch ends with that exception, and \<^verbatim>\<open>main\<close> hands on no record for
  either seed.
\<close>

theorem raising_detail_fetch_leaves_no_record:
  "get_initial_ids_from_html unreachable_world = Inr [''a1'', ''a2'']
   \<and> get_detail_for_id unreachable_world ''a1'' = Inr JNull
   \<and> get_detail_for_id unreachable_world ''a2'' = Inl ConnectionError
   \<and> fallback_branch unreachable_world = Inl ConnectionError
   \<and> main unreachable_world = Some \<lparr>handed = None, raised = Some ConnectionError, posts = []\<rparr>"
  by code_simp

text \<open>
  C9, as the code has it. In the fallback branch, where no detail GET raises in the
  transport, the rows collected are one per seed identifier, in the order of the seeds:
  the decoded detail object where the detail decode yields one, and the minimal record
  \<^verbatim>\<open>{"id": ds_id}\<close> where the decode fails or yields nothing (a refused request, a miss of
  the decoder, an empty object). Where a detail GET raises, the branch ends with that
  exception and no rows.
\<close>

theorem fallback_one_record_per_seed:
  assumes seeds: "get_initial_ids_from_html w = Inr ids"
  shows "fallback_branch w
         = (if \<forall>i\<in>set ids. detail w i \<noteq> Failed
            then Inr (map (\<lambda>i. if py_truthy (projr (get_detail_for_id w i))
                                then projr (get_detail_for_id w i) else minimal_record i) ids,
                      if ids \<noteq> [] then JStr (str (last ids)) else JNull)
            else Inl ConnectionError)"
proof (cases "\<forall>i\<in>set ids. detail w i \<noteq> Failed")
  case True
  with seeds detail_rows_map [OF True, of "[]"] show ?thesis
    by (simp add: fallback_branch_def and_then_def)
next
  case False
  then have "\<exists>i\<in>set ids. detail w i = Failed" by simp
  from detail_rows_failed [OF this, of "[]"] seeds False show ?thesis
    by (simp add: fallback_branch_def and_then_def)
qed

theorem fallback_one_record_per_seed_witness:
  "get_initial_ids_from_html seeded_world = Inr [''a1'', ''a2'']
   \<and> detail seeded_world ''a1'' \<noteq> Failed \<and> detail seeded_world ''a2'' \<noteq> Failed
   \<and> get_detail_for_id seeded_world ''a1'' = Inr JNull
   \<and> fallback_branch seeded_world
      = Inr ([minimal_record ''a1'',
              JObj [(str ''id'', JStr (str ''a2'')), (str ''name'', JStr (str ''two''))]],
             JStr (str ''a2''))"
proof -
  have h1: "get_initial_ids_from_html seeded_world = Inr [''a1'', ''a2'']"
    by code_simp
  have h2: "\<forall>i\<in>set [''a1'', ''a2'']. detail seeded_world i \<noteq> Failed"
    by (simp add: seeded_world_def)
  have h3: "get_detail_for_id seeded_world ''a1'' = Inr JNull"
    by code_simp
  have h4: "get_detail_for_id seeded_world ''a2''
            = Inr (JObj [(str ''id'', JStr (str ''a2'')), (str ''name'', JStr (str ''two''))])"
    by code_simp
  have h5: "py_truthy (JObj [(str ''id'', JStr (str ''a2'')), (str ''name'', JStr (str ''two''))])"
    by simp
  from fallback_one_record_per_seed [OF h1] h1 h2 h3 h4 h5
  show ?thesis by (simp add: seeded_world_def)
qed

section \<open>The first page and the fallback\<close>

definition empty_or_missed :: "string \<Rightarrow> bool" where
  \<comment> \<open>the chunk has no anchored array, or one that is not balanced, or one that does not
      parse, or the literal empty array\<close>
  "empty_or_missed text =
     (case array_span (strip_chunk_prefixes text) ''datasets'' of
        None \<Rightarrow> True
      | Some arr_text \<Rightarrow> arr_text = ''[]'' \<or> json_loads (normalize_rsc_tokens arr_text) = None)"

lemma empty_array_parses: "json_loads (normalize_rsc_tokens ''[]'') = Some (JArr [])"
  by code_simp

lemma empty_or_missed_decodes_empty:
  "empty_or_missed text \<Longrightarrow> extract_json_array_from_rsc text ''datasets'' = JArr []"
  by (auto simp: empty_or_missed_def extract_json_array_from_rsc_def empty_array_parses
           split: option.splits)

definition empty_catalog_world :: world where
  \<comment> \<open>the first POST is answered with an empty array, the second with a chunk that has no
      array at all\<close>
  \<open>empty_catalog_world =
     \<lparr>post_no_cursor = Response 200 ''0:{"datasets":[]}'',
      post_empty_cursor = Response 200 ''0:{"error":"bad request"}'',
      bs4_installed = True,
      listing = Response 200 [''/datasets/a1''],
      detail = (\<lambda>ds_id. Response 404 []),
      load_more = (\<lambda>n cursor. Response 200 ''0:{"datasets":[]}''),
      csv_file = (\<lambda>header rows. None)\<rparr>\<close>

text \<open>
  C10. A chunk whose anchored span is the literal empty array decodes to the same empty
  list as a chunk on which the decoder misses (no anchor, no balanced span, no valid JSON);
  and where both first-page answers are of these kinds, part A of \<^verbatim>\<open>main\<close> is the fallback
  branch, whichever of the kinds they are.
\<close>

theorem empty_page_is_a_miss:
  assumes first: "post_no_cursor w = Response st1 text1"
    and second: "post_empty_cursor w = Response st2 text2"
    and kind1: "empty_or_missed text1"
    and kind2: "empty_or_missed text2"
  shows "extract_json_array_from_rsc text1 ''datasets'' = JArr []
         \<and> extract_json_array_from_rsc text2 ''datasets'' = JArr []
         \<and> get_initial_via_post w = Inr (JArr [])
         \<and> first_page w = fallback_branch w"
proof -
  note d1 = empty_or_missed_decodes_empty [OF kind1]
  note d2 = empty_or_missed_decodes_empty [OF kind2]
  from first second d1 d2 have g: "get_initial_via_post w = Inr (JArr [])"
    by (simp add: get_initial_via_post_def initial_attempt_def)
  then have "first_page w = fallback_branch w"
    by (simp add: first_page_def and_then_def)
  with d1 d2 g show ?thesis by simp
qed

theorem empty_page_is_a_miss_witness:
  \<open>array_span (strip_chunk_prefixes ''0:{"datasets":[]}'') ''datasets'' = Some ''[]''
   \<and> array_span (strip_chunk_prefixes ''0:{"error":"bad request"}'') ''datasets'' = None
   \<and> empty_or_missed ''0:{"datasets":[]}''
   \<and> empty_or_missed ''0:{"error":"bad request"}''
   \<and> extract_json_array_from_rsc ''0:{"datasets":[]}'' ''datasets''
      = extract_json_array_from_rsc ''0:{"error":"bad request"}'' ''datasets''
   \<and> first_page empty_catalog_world = fallback_branch empty_catalog_world
   \<and> fallback_branch empty_catalog_world = Inr ([minimal_record ''a1''], JStr (str ''a1''))\<close>
proof -
  have s1: \<open>array_span (strip_chunk_prefixes ''0:{"datasets":[]}'') ''datasets'' = Some ''[]''\<close>
    by code_simp
  have s2: \<open>array_span (strip_chunk_prefixes ''0:{"error":"bad request"}'') ''datasets'' = None\<close>
    by code_simp
  have k1: \<open>empty_or_missed ''0:{"datasets":[]}''\<close>
    by (simp only: empty_or_missed_def s1) simp
  have k2: \<open>empty_or_missed ''0:{"error":"bad request"}''\<close>
    by (simp only: empty_or_missed_def s2) simp
  have r1: \<open>post_no_cursor empty_catalog_world = Response 200 ''0:{"datasets":[]}''\<close>
    by (simp add: empty_catalog_world_def)
  have r2: \<open>post_empty_cursor empty_catalog_world = Response 200 ''0:{"error":"bad request"}''\<close>
    by (simp add: empty_catalog_world_def)
  have f: "fallback_branch empty_catalog_world = Inr ([minimal_record ''a1''], JStr (str ''a1''))"
    by code_simp
  from empty_page_is_a_miss [OF r1 r2 k1 k2] s1 s2 k1 k2 f
  show ?thesis by simp
qed

section \<open>The identifiers of the listing page\<close>

text \<open>
  What the contract of the fallback discoverer says, in its own words: a link matches when
  its \<^verbatim>\<open>href\<close> is \<^verbatim>\<open>/datasets/\<close> followed by a non-empty identifier over \<^verbatim>\<open>[a-z0-9]\<close> and
  nothing else; the identifiers are listed in the order of their first appearance.
\<close>

definition exact_dataset_id :: "string \<Rightarrow> string option" where
  "exact_dataset_id href =
     (if starts_with ''/datasets/'' href \<and> drop 10 href \<noteq> [] \<and> list_all is_id_char (drop 10 href)
      then Some (drop 10 href) else None)"

fun first_appearances :: "string list \<Rightarrow> string list" where
  "first_appearances [] = []"
| "first_appearances (i # ids) = i # first_appearances (removeAll i ids)"

lemma keep_first_eq:
  "keep_first seen ordered ids = ordered @ first_appearances (filter (\<lambda>i. i \<notin> seen) ids)"
proof (induction ids arbitrary: seen ordered)
  case Nil
  show ?case by simp
next
  case (Cons i ids)
  show ?case
  proof (cases "i \<in> seen")
    case True
    with Cons show ?thesis by simp
  next
    case False
    have "removeAll i (filter (\<lambda>j. j \<notin> seen) ids) = filter (\<lambda>j. j \<notin> insert i seen) ids"
      by (induction ids) auto
    with False Cons show ?thesis by simp
  qed
qed

lemma dataset_href_exact:
  assumes "href = [] \<or> last href \<noteq> CHR 0x0A"
  shows "dataset_href href = exact_dataset_id href"
proof (cases "starts_with ''/datasets/'' href")
  case False
  then show ?thesis by (simp add: dataset_href_def exact_dataset_id_def)
next
  case True
  define t where "t = drop 10 href"
  have rest: "drop (10 + length (takeWhile is_id_char t)) href = dropWhile is_id_char t"
    unfolding t_def by (simp add: dropWhile_eq_drop add.commute)
  have no_lf: "dropWhile is_id_char t \<noteq> [CHR 0x0A]"
  proof
    assume e: "dropWhile is_id_char t = [CHR 0x0A]"
    have "t = takeWhile is_id_char t @ dropWhile is_id_char t" by simp
    with e have t: "t = takeWhile is_id_char t @ [CHR 0x0A]" by simp
    have "href = take 10 href @ t" unfolding t_def by simp
    with t have "href = (take 10 href @ takeWhile is_id_char t) @ [CHR 0x0A]" by simp
    then have "href \<noteq> [] \<and> last href = CHR 0x0A" by (metis snoc_eq_iff_butlast)
    with assms show False by simp
  qed
  have code: "dataset_href href
              = (if takeWhile is_id_char t \<noteq> []
                    \<and> (dropWhile is_id_char t = [] \<or> dropWhile is_id_char t = [CHR 0x0A])
                 then Some (takeWhile is_id_char t) else None)"
    by (simp only: dataset_href_def Let_def t_def [symmetric] rest True if_True)
  have spec: "exact_dataset_id href = (if t \<noteq> [] \<and> list_all is_id_char t then Some t else None)"
    using True by (simp add: exact_dataset_id_def t_def [symmetric])
  show ?thesis
  proof (cases "list_all is_id_char t")
    case True
    then have "takeWhile is_id_char t = t" and "dropWhile is_id_char t = []"
      by (simp_all add: takeWhile_eq_all_conv dropWhile_eq_Nil_conv list_all_iff)
    with True code spec show ?thesis by simp
  next
    case False
    then have "dropWhile is_id_char t \<noteq> []"
      by (simp add: dropWhile_eq_Nil_conv list_all_iff)
    with False no_lf code spec show ?thesis by simp
  qed
qed

lemma matching_ids_exact:
  "\<forall>href\<in>set hrefs. href = [] \<or> last href \<noteq> CHR 0x0A \<Longrightarrow>
   matching_ids hrefs = List.map_filter exact_dataset_id hrefs"
proof (induction hrefs)
  case Nil
  show ?case by (simp add: List.map_filter_simps)
next
  case (Cons href hrefs)
  then have "dataset_href href = exact_dataset_id href"
    by (simp add: dataset_href_exact)
  with Cons show ?case
    by (simp add: List.map_filter_simps split: option.splits)
qed

definition unparsed_world :: world where
  \<comment> \<open>the listing page links two datasets, but \<^verbatim>\<open>bs4\<close> could not be imported\<close>
  \<open>unparsed_world =
     \<lparr>post_no_cursor = Response 403 [],
      post_empty_cursor = Response 403 [],
      bs4_installed = False,
      listing = Response 200 [''/datasets/a1'', ''/datasets/a2'', ''/datasets/a1''],
      detail = (\<lambda>ds_id. Response 404 []),
      load_more = (\<lambda>n cursor. Response 200 []),
      csv_file = (\<lambda>header rows. None)\<rparr>\<close>

definition linked_world :: world where
  \<open>linked_world = unparsed_world\<lparr>bs4_installed := True\<rparr>\<close>

text \<open>
  C8, as the code has it. Where \<^verbatim>\<open>BeautifulSoup\<close> is available and the listing page is
  fetched without an error status, and no \<^verbatim>\<open>href\<close> ends in a line feed, the discoverer
  returns the identifiers of the links whose \<^verbatim>\<open>href\<close> is exactly \<^verbatim>\<open>/datasets/<id>\<close>, in the
  order of first appearance, without duplicates, cut to the page size of 24. Where
  \<^verbatim>\<open>BeautifulSoup\<close> is not available it returns the empty list, whatever the page holds.
\<close>

theorem discovered_ids:
  assumes page: "listing w = Response st hrefs"
    and ok: "\<not> raise_for_status st"
    and lf: "\<forall>href\<in>set hrefs. href = [] \<or> last href \<noteq> CHR 0x0A"
  shows "get_initial_ids_from_html w
         = (if bs4_installed w
            then Inr (take 24 (first_appearances (List.map_filter exact_dataset_id hrefs)))
            else Inr [])"
  using page ok matching_ids_exact [OF lf]
  by (simp add: get_initial_ids_from_html_def keep_first_eq PAGE_LIMIT_def)

theorem discovered_ids_witness:
  "listing linked_world = Response 200 [''/datasets/a1'', ''/datasets/a2'', ''/datasets/a1'']
   \<and> \<not> raise_for_status 200
   \<and> last ''/datasets/a1'' \<noteq> CHR 0x0A \<and> last ''/datasets/a2'' \<noteq> CHR 0x0A
   \<and> bs4_installed linked_world
   \<and> get_initial_ids_from_html linked_world = Inr [''a1'', ''a2'']"
proof -
  have h1: "listing linked_world = Response 200 [''/datasets/a1'', ''/datasets/a2'', ''/datasets/a1'']"
    by (simp add: linked_world_def unparsed_world_def)
  have h2: "\<not> raise_for_status 200"
    by (simp add: raise_for_status_def)
  have h3: "\<forall>href\<in>set [''/datasets/a1'', ''/datasets/a2'', ''/datasets/a1''].
              href = [] \<or> last href \<noteq> CHR 0x0A"
    by simp
  have h4: "bs4_installed linked_world"
    by (simp add: linked_world_def)
  have h5: "take 24 (first_appearances
              (List.map_filter exact_dataset_id [''/datasets/a1'', ''/datasets/a2'', ''/datasets/a1'']))
            = [''a1'', ''a2'']"
    by code_simp
  from discovered_ids [OF h1 h2 h3] h1 h2 h4 h5
  show ?thesis by simp
qed

text \<open>
  C8, as the claim states it, fails: without \<^verbatim>\<open>BeautifulSoup\<close> a page with two matching
  links yields the empty list.
\<close>

theorem no_parser_no_ids:
  "listing unparsed_world = Response 200 [''/datasets/a1'', ''/datasets/a2'', ''/datasets/a1'']
   \<and> get_initial_ids_from_html unparsed_world = Inr []"
  by code_simp

section \<open>The decoders on concrete chunks\<close>

text \<open>
  C3. The raw chunk \<^verbatim>\<open>0:{"datasets":[{"id":"$n1"},{"id":"$n2"}]}\<close>, decoded with the key
  anchor \<^verbatim>\<open>datasets\<close> (line prefixes stripped, the balanced array span extracted, tokens
  normalized, the span parsed as JSON), is exactly the sequence of the two records
  \<^verbatim>\<open>{"id":1}\<close> and \<^verbatim>\<open>{"id":2}\<close>.
\<close>

theorem decode_datasets_chunk:
  \<open>extract_json_array_from_rsc ''0:{"datasets":[{"id":"$n1"},{"id":"$n2"}]}'' ''datasets''
     = JArr [JObj [(str ''id'', JInt 1)], JObj [(str ''id'', JInt 2)]]\<close>
  by code_simp

end
